theory Spec2Isabelle
  imports Main "HOL-Library.Word" "HOL-Library.AList"
begin

section \<open>Values held behind Go's empty interface\<close>

text \<open>
  A \<open>ContextValue\<close> is Go's \<open>interface{}\<close>: a dynamic type paired with a value of
  that type, or the nil interface. The seven constructors \<open>VString\<close> .. \<open>VFloat64\<close>
  are the dynamic types the typed accessors of \<open>getter.go\<close> assert. Go's \<open>int\<close> is
  taken at 64 bits; a \<open>float64\<close> is carried as its IEEE-754 bit pattern, since the
  accessors only pass it on. \<open>VPointer\<close> is a pointer to a heap-allocated struct
  (such as \<open>*LameStruct\<close> in the tests), and \<open>VOther\<close> stands for a value of any
  further dynamic type (a function, a slice, ...), told apart by a tag.
\<close>

type_synonym addr = nat

datatype ContextValue =
    VNil
  | VString string
  | VBool bool
  | VInt "64 word"
  | VInt32 "32 word"
  | VInt64 "64 word"
  | VUint64 "64 word"
  | VFloat64 "64 word"
  | VPointer addr
  | VOther nat

datatype GoType =
  TNil | TString | TBool | TInt | TInt32 | TInt64 | TUint64 | TFloat64 | TPointer | TOther

fun TypeOf :: "ContextValue \<Rightarrow> GoType" where
  "TypeOf VNil = TNil"
| "TypeOf (VString s) = TString"
| "TypeOf (VBool b) = TBool"
| "TypeOf (VInt i) = TInt"
| "TypeOf (VInt32 i) = TInt32"
| "TypeOf (VInt64 i) = TInt64"
| "TypeOf (VUint64 i) = TUint64"
| "TypeOf (VFloat64 f) = TFloat64"
| "TypeOf (VPointer a) = TPointer"
| "TypeOf (VOther t) = TOther"

text \<open>
  \<open>reflect.ValueOf(ret).IsValid()\<close>: \<open>reflect.ValueOf\<close> yields the zero
  \<open>reflect.Value\<close>, the only invalid one, exactly for the nil interface.
\<close>

fun IsValid :: "ContextValue \<Rightarrow> bool" where
  "IsValid VNil = False"
| "IsValid v = True"

text \<open>
  The run-time panic of \<open>getter.go\<close>. A single-value type assertion \<open>v.(T)\<close>
  on a value whose dynamic type is not \<open>T\<close> panics with an interface-conversion
  error.
\<close>

datatype panic = InterfaceConversion

text \<open>The single-value assertions \<open>v.(T)\<close>: the value, or the panic.\<close>

fun assert_string :: "ContextValue \<Rightarrow> panic + string" where
  "assert_string (VString s) = Inr s"
| "assert_string v = Inl InterfaceConversion"

fun assert_bool :: "ContextValue \<Rightarrow> panic + bool" where
  "assert_bool (VBool b) = Inr b"
| "assert_bool v = Inl InterfaceConversion"

fun assert_int :: "ContextValue \<Rightarrow> panic + 64 word" where
  "assert_int (VInt i) = Inr i"
| "assert_int v = Inl InterfaceConversion"

fun assert_int64 :: "ContextValue \<Rightarrow> panic + 64 word" where
  "assert_int64 (VInt64 i) = Inr i"
| "assert_int64 v = Inl InterfaceConversion"

fun assert_int32 :: "ContextValue \<Rightarrow> panic + 32 word" where
  "assert_int32 (VInt32 i) = Inr i"
| "assert_int32 v = Inl InterfaceConversion"

fun assert_uint64 :: "ContextValue \<Rightarrow> panic + 64 word" where
  "assert_uint64 (VUint64 i) = Inr i"
| "assert_uint64 v = Inl InterfaceConversion"

fun assert_float64 :: "ContextValue \<Rightarrow> panic + 64 word" where
  "assert_float64 (VFloat64 f) = Inr f"
| "assert_float64 v = Inl InterfaceConversion"

text \<open>
  The comma-ok assertions \<open>x, kk := v.(T)\<close>: they never panic; on a mismatch
  \<open>x\<close> is the zero value of \<open>T\<close> and \<open>kk\<close> is false.
\<close>

fun ok_string :: "ContextValue \<Rightarrow> string \<times> bool" where
  "ok_string (VString s) = (s, True)"
| "ok_string v = ([], False)"

fun ok_bool :: "ContextValue \<Rightarrow> bool \<times> bool" where
  "ok_bool (VBool b) = (b, True)"
| "ok_bool v = (False, False)"

fun ok_int :: "ContextValue \<Rightarrow> 64 word \<times> bool" where
  "ok_int (VInt i) = (i, True)"
| "ok_int v = (0, False)"

fun ok_int64 :: "ContextValue \<Rightarrow> 64 word \<times> bool" where
  "ok_int64 (VInt64 i) = (i, True)"
| "ok_int64 v = (0, False)"

fun ok_int32 :: "ContextValue \<Rightarrow> 32 word \<times> bool" where
  "ok_int32 (VInt32 i) = (i, True)"
| "ok_int32 v = (0, False)"

fun ok_uint64 :: "ContextValue \<Rightarrow> 64 word \<times> bool" where
  "ok_uint64 (VUint64 i) = (i, True)"
| "ok_uint64 v = (0, False)"

fun ok_float64 :: "ContextValue \<Rightarrow> 64 word \<times> bool" where
  "ok_float64 (VFloat64 f) = (f, True)"
| "ok_float64 v = (0, False)"

section \<open>The Getter interface and its implementations (getter.go)\<close>

text \<open>
  \<open>KeyValueDatasource\<close> is an interface declared elsewhere in the package; all that
  \<open>getter.go\<close> uses of it is the method \<open>Value(key)\<close>, so a datasource is taken
  as that method. \<open>TableDatasource\<close> is a concrete one, backed by a table, for
  running the code on explicit inputs: a key outside the table yields nil.
\<close>

type_synonym KeyValueDatasource = "string \<Rightarrow> ContextValue"

fun TableDatasource :: "(string \<times> ContextValue) list \<Rightarrow> KeyValueDatasource" where
  "TableDatasource [] key = VNil"
| "TableDatasource ((k, v) # kvs) key = (if key = k then v else TableDatasource kvs key)"

text \<open>
  A value of interface type \<open>Getter\<close> is one of the implementing types of
  \<open>getter.go\<close>, \<open>GettableDatasource\<close> or \<open>DefaultGetter\<close>, or any other
  implementation (the package's \<open>Context\<close> and \<open>Params\<close> among them), given by
  its two methods.
\<close>

datatype Getter =
    GettableDatasource KeyValueDatasource
  | DefaultGetter ContextValue
  | Implementation "string \<Rightarrow> ContextValue \<Rightarrow> ContextValue" "string \<Rightarrow> ContextValue \<times> bool"

fun Get :: "Getter \<Rightarrow> string \<Rightarrow> ContextValue \<Rightarrow> ContextValue" where
  "Get (GettableDatasource ds) key defaultVal =
     (let ret = ds key in
      if ret = VNil \<or> \<not> IsValid ret then defaultVal else ret)"
| "Get (DefaultGetter val) name value = val"
| "Get (Implementation get has) key defaultVal = get key defaultVal"

fun Has :: "Getter \<Rightarrow> string \<Rightarrow> ContextValue \<times> bool" where
  "Has (GettableDatasource ds) key =
     (let ret = ds key in
      if ret = VNil \<or> \<not> IsValid ret then (VNil, False) else (ret, True))"
| "Has (DefaultGetter val) name = (val, True)"
| "Has (Implementation get has) key = has key"

subsection \<open>Typed Get accessors\<close>

definition GetString :: "string \<Rightarrow> string \<Rightarrow> Getter \<Rightarrow> panic + string" where
  "GetString key defaultValue source = assert_string (Get source key (VString defaultValue))"

definition GetBool :: "string \<Rightarrow> bool \<Rightarrow> Getter \<Rightarrow> panic + bool" where
  "GetBool key defaultValue source = assert_bool (Get source key (VBool defaultValue))"

definition GetInt :: "string \<Rightarrow> 64 word \<Rightarrow> Getter \<Rightarrow> panic + 64 word" where
  "GetInt key defaultValue source = assert_int (Get source key (VInt defaultValue))"

definition GetInt64 :: "string \<Rightarrow> 64 word \<Rightarrow> Getter \<Rightarrow> panic + 64 word" where
  "GetInt64 key defaultValue source = assert_int64 (Get source key (VInt64 defaultValue))"

definition GetInt32 :: "string \<Rightarrow> 32 word \<Rightarrow> Getter \<Rightarrow> panic + 32 word" where
  "GetInt32 key defaultValue source = assert_int32 (Get source key (VInt32 defaultValue))"

definition GetUint64 :: "string \<Rightarrow> 64 word \<Rightarrow> Getter \<Rightarrow> panic + 64 word" where
  "GetUint64 key defaultVal source = assert_uint64 (Get source key (VUint64 defaultVal))"

definition GetFloat64 :: "string \<Rightarrow> 64 word \<Rightarrow> Getter \<Rightarrow> panic + 64 word" where
  "GetFloat64 key defaultVal source = assert_float64 (Get source key (VFloat64 defaultVal))"

subsection \<open>Typed Has accessors\<close>

definition HasString :: "string \<Rightarrow> Getter \<Rightarrow> string \<times> bool" where
  "HasString key source =
     (case Has source key of (v, ok) \<Rightarrow>
        if \<not> ok then ([], ok)
        else (case ok_string v of (strval, kk) \<Rightarrow>
          if \<not> kk then ([], kk) else (strval, kk)))"

definition HasBool :: "string \<Rightarrow> bool \<Rightarrow> Getter \<Rightarrow> bool \<times> bool" where
  "HasBool key defaultValue source =
     (case Has source key of (v, ok) \<Rightarrow>
        if \<not> ok then (False, ok)
        else (case ok_bool v of (strval, kk) \<Rightarrow>
          if \<not> kk then (False, kk) else (strval, kk)))"

definition HasInt :: "string \<Rightarrow> 64 word \<Rightarrow> Getter \<Rightarrow> 64 word \<times> bool" where
  "HasInt key defaultValue source =
     (case Has source key of (v, ok) \<Rightarrow>
        if \<not> ok then (0, ok)
        else (case ok_int v of (val, kk) \<Rightarrow>
          if \<not> kk then (0, kk) else (val, kk)))"

definition HasInt64 :: "string \<Rightarrow> 64 word \<Rightarrow> Getter \<Rightarrow> 64 word \<times> bool" where
  "HasInt64 key defaultValue source =
     (case Has source key of (v, ok) \<Rightarrow>
        if \<not> ok then (0, ok)
        else (case ok_int64 v of (val, kk) \<Rightarrow>
          if \<not> kk then (0, kk) else (val, kk)))"

definition HasInt32 :: "string \<Rightarrow> 32 word \<Rightarrow> Getter \<Rightarrow> 32 word \<times> bool" where
  "HasInt32 key defaultValue source =
     (case Has source key of (v, ok) \<Rightarrow>
        if \<not> ok then (0, ok)
        else (case ok_int32 v of (val, kk) \<Rightarrow>
          if \<not> kk then (0, kk) else (val, kk)))"

definition HasUint64 :: "string \<Rightarrow> 64 word \<Rightarrow> Getter \<Rightarrow> 64 word \<times> bool" where
  "HasUint64 key defaultVal source =
     (case Has source key of (v, ok) \<Rightarrow>
        if \<not> ok then (0, ok)
        else (case ok_uint64 v of (val, kk) \<Rightarrow>
          if \<not> kk then (0, kk) else (val, kk)))"

definition HasFloat64 :: "string \<Rightarrow> 64 word \<Rightarrow> Getter \<Rightarrow> 64 word \<times> bool" where
  "HasFloat64 key defaultVal source =
     (case Has source key of (v, ok) \<Rightarrow>
        if \<not> ok then (0, ok)
        else (case ok_float64 v of (val, kk) \<Rightarrow>
          if \<not> kk then (0, kk) else (val, kk)))"

subsection \<open>First-match resolution\<close>

text \<open>
  The \<open>for ... range sources\<close> loop of \<open>GetFromFirst\<close>, as recursion over the
  variadic argument: the loop returns from inside at the first source that has the
  key, and falls through to the \<open>DefaultGetter\<close> when the sources are used up.
\<close>

fun GetFromFirst :: "string \<Rightarrow> ContextValue \<Rightarrow> Getter list \<Rightarrow> ContextValue \<times> Getter" where
  "GetFromFirst key defaultVal [] = (defaultVal, DefaultGetter defaultVal)"
| "GetFromFirst key defaultVal (s # sources) =
     (case Has s key of (val, ok) \<Rightarrow>
        if ok then (val, s) else GetFromFirst key defaultVal sources)"

section \<open>The Value Store (Context)\<close>

text \<open>
  Of \<open>Context\<close> the package's test file is verified here, not the implementation.
  The store is therefore modelled from the specification, and the objects of the test
  (\<open>LameStruct\<close>, the steps of \<open>TestCopy\<close>) are taken from the test file.
\<close>

text \<open>Modelled from the spec: the Value Store, whose implementation is missing: a
  mapping from string keys to arbitrarily typed values, with the logger registry as a
  separate table on the same store (the datasource table is left out: nothing below
  reads it). Go's map is the association list with distinct keys that
  \<open>AList.update\<close> and \<open>AList.delete\<close> maintain; the loggers are kept by name, in
  registration order.\<close>

record ExecutionContext =
  cxt_values :: "(string \<times> ContextValue) list"
  cxt_loggers :: "string list"

text \<open>Modelled from the spec: \<open>Add(key, value)\<close> always succeeds and overwrites
  (insert-or-overwrite) the binding of the key in one store.\<close>

definition cxt_add :: "ExecutionContext \<Rightarrow> string \<Rightarrow> ContextValue \<Rightarrow> ExecutionContext" where
  "cxt_add c key v = c\<lparr>cxt_values := AList.update key v (cxt_values c)\<rparr>"

text \<open>Modelled from the spec: \<open>Remove(key)\<close> is idempotent; removing an absent key is
  a no-op, not an error.\<close>

definition cxt_remove :: "ExecutionContext \<Rightarrow> string \<Rightarrow> ExecutionContext" where
  "cxt_remove c key = c\<lparr>cxt_values := AList.delete key (cxt_values c)\<rparr>"

text \<open>Modelled from the spec: \<open>Has(key)\<close> never fails and returns the value with a
  found/not-found flag; a stored nil is found.\<close>

definition cxt_has :: "ExecutionContext \<Rightarrow> string \<Rightarrow> ContextValue \<times> bool" where
  "cxt_has c key = (case map_of (cxt_values c) key of None \<Rightarrow> (VNil, False) | Some v \<Rightarrow> (v, True))"

text \<open>Modelled from the spec: \<open>Len()\<close>, the number of top-level bindings.\<close>

definition cxt_len :: "ExecutionContext \<Rightarrow> nat" where
  "cxt_len c = length (cxt_values c)"

text \<open>Modelled from the spec: the key set of a store, the observation the copy
  invariant is stated on.\<close>

definition cxt_keys :: "ExecutionContext \<Rightarrow> string set" where
  "cxt_keys c = set (map fst (cxt_values c))"

text \<open>Modelled from the spec: a logger is registered under a name in the store's own
  table; registering a name again keeps its place in the registration order.\<close>

definition cxt_add_logger :: "ExecutionContext \<Rightarrow> string \<Rightarrow> ExecutionContext" where
  "cxt_add_logger c name =
     (if name \<in> set (cxt_loggers c) then c else c\<lparr>cxt_loggers := cxt_loggers c @ [name]\<rparr>)"

text \<open>
  From the test file: \<open>type LameStruct struct { stuff []string }\<close>, a mutable
  aggregate that the test stores in a context by pointer.
\<close>

record LameStruct =
  stuff :: "string list"

text \<open>Modelled from the spec: the program state in which stores live. Stores are
  used through pointers and mutated in place, and a stored value may point to a struct
  on the heap, so the state is explicit: the stores allocated so far and the structs
  allocated so far. A handle or a pointer is the index of its object;
  \<open>NewContext\<close>, \<open>Copy\<close> and \<open>NewLameStruct\<close> are the only ways to obtain one,
  so the handles in use are always below the length of their table.\<close>

record world =
  contexts :: "ExecutionContext list"
  structs :: "LameStruct list"

definition empty_world :: world where
  "empty_world = \<lparr>contexts = [], structs = []\<rparr>"

text \<open>Modelled from the spec: \<open>NewContext()\<close> creates a fresh, empty store.\<close>

definition NewContext :: "world \<Rightarrow> addr \<times> world" where
  "NewContext w =
     (length (contexts w),
      w\<lparr>contexts := contexts w @ [\<lparr>cxt_values = [], cxt_loggers = []\<rparr>]\<rparr>)"

text \<open>Modelled from the spec: \<open>Add\<close> on the store behind a handle, in place.\<close>

definition Add :: "world \<Rightarrow> addr \<Rightarrow> string \<Rightarrow> ContextValue \<Rightarrow> world" where
  "Add w c key v = w\<lparr>contexts := (contexts w)[c := cxt_add (contexts w ! c) key v]\<rparr>"


text \<open>Modelled from the spec: \<open>Has\<close> on the store behind a handle.\<close>

definition Has_cxt :: "world \<Rightarrow> addr \<Rightarrow> string \<Rightarrow> ContextValue \<times> bool" where
  "Has_cxt w c key = cxt_has (contexts w ! c) key"



text \<open>Modelled from the spec: \<open>Copy()\<close> produces a new store that is a shallow
  snapshot: the top-level bindings are copied into a newly allocated store, the
  values themselves (pointers included) are copied as they are, and the logger table
  is carried along.\<close>

definition Copy :: "world \<Rightarrow> addr \<Rightarrow> addr \<times> world" where
  "Copy w c = (length (contexts w), w\<lparr>contexts := contexts w @ [contexts w ! c]\<rparr>)"




text \<open>
  From the test file: \<open>lame := new(LameStruct); lame.stuff = ...\<close> allocates a
  struct; \<open>lame.stuff[i] = x\<close> writes into it through the pointer; and
  \<open>c2.Get("a").(*LameStruct).stuff[i]\<close> asserts a stored value to be such a pointer
  and reads through it. A nil or dangling pointer, an index out of range and a value
  of another type panic.
\<close>

datatype deref_panic = NilDereference | OutOfRange | NotAPointer

definition NewLameStruct :: "world \<Rightarrow> string list \<Rightarrow> addr \<times> world" where
  "NewLameStruct w xs = (length (structs w), w\<lparr>structs := structs w @ [\<lparr>stuff = xs\<rparr>]\<rparr>)"

definition SetStuff :: "world \<Rightarrow> addr \<Rightarrow> nat \<Rightarrow> string \<Rightarrow> deref_panic + world" where
  "SetStuff w p i x =
     (if \<not> p < length (structs w) then Inl NilDereference
      else if \<not> i < length (stuff (structs w ! p)) then Inl OutOfRange
      else Inr (w\<lparr>structs := (structs w)[p := \<lparr>stuff = (stuff (structs w ! p))[i := x]\<rparr>]\<rparr>))"

fun GetStuff :: "world \<Rightarrow> ContextValue \<Rightarrow> nat \<Rightarrow> deref_panic + string" where
  "GetStuff w (VPointer p) i =
     (if \<not> p < length (structs w) then Inl NilDereference
      else if \<not> i < length (stuff (structs w ! p)) then Inl OutOfRange
      else Inr (stuff (structs w ! p) ! i))"
| "GetStuff w v i = Inl NotAPointer"

text \<open>
  From the test file: the state \<open>TestCopy\<close> has built when it calls \<open>c.Copy()\<close>.
  The struct is the first allocated (pointer 0) and \<open>c\<close> the first store (handle 0).
\<close>

definition TestCopy_setup :: world where
  "TestCopy_setup =
     (let (lame, w1) = NewLameStruct empty_world [''O'', ''Hai''];
          (c, w2) = NewContext w1;
          w3 = Add w2 c ''a'' (VPointer lame)
      in Add w3 c ''b'' (VString ''This is the song that never ends''))"

section \<open>Routes and the chain executor\<close>

text \<open>
  Of the registry and the router only the tutorial that uses them is available, so
  they are modelled from the specification: its data model (section 3) and the state
  machine of the chain executor (section 4.4).
\<close>

text \<open>Modelled from the spec: the control signal an operation returns beside its
  result: none, Stop, Reroute(target route id), RecoverableError, FatalError. An error
  carries its message.\<close>

datatype Signal =
    NoSignal
  | Stop
  | Reroute string
  | RecoverableError string
  | FatalError string

text \<open>Modelled from the spec: a source specifier names a source kind (context,
  path segment, query field, form field) and a key or index within that source, as in
  \<open>cxt:msg\<close>, \<open>path:1\<close>, \<open>post:foo\<close>.\<close>

datatype SourceKind = FromContext | FromPath | FromQuery | FromPost

type_synonym SourceSpec = "SourceKind \<times> string"

text \<open>Modelled from the spec: a parameter binding is a parameter name, an ordered
  list of source specifiers and an optional default.\<close>

record ParamBinding =
  param_name :: string
  param_sources :: "SourceSpec list"
  param_default :: "ContextValue option"

text \<open>Modelled from the spec: the Params view of one step, the resolved value of each
  declared parameter.\<close>

type_synonym Params = "(string \<times> ContextValue) list"

text \<open>Modelled from the spec: an operation consumes (Context, Params) and produces
  (result value, control signal); it reads only through them, and the router writes
  its result into the store.\<close>

type_synonym Command = "ExecutionContext \<Rightarrow> Params \<Rightarrow> ContextValue \<times> Signal"

text \<open>Modelled from the spec: a step is an operation reference, an output binding
  name and an ordered list of parameter bindings. The registry does not validate the
  reference; one that does not resolve is \<open>None\<close>.\<close>

record Step =
  step_operation :: "Command option"
  step_output :: string
  step_params :: "ParamBinding list"

text \<open>Modelled from the spec: a route entry is a description and an ordered sequence
  of steps; the registry maps route identifiers to entries.\<close>

record RouteEntry =
  route_description :: string
  route_steps :: "Step list"

type_synonym Registry = "(string \<times> RouteEntry) list"

text \<open>Modelled from the spec: registering an identifier again overwrites its entry
  (last write wins).\<close>

definition register :: "Registry \<Rightarrow> string \<Rightarrow> RouteEntry \<Rightarrow> Registry" where
  "register reg rid entry = AList.update rid entry reg"

text \<open>Modelled from the spec: the transport binding supplies, per request,
  Getter-shaped views over path segments, query fields and form fields.\<close>

record Request =
  request_path :: Getter
  request_query :: Getter
  request_post :: Getter

text \<open>Modelled from the spec: the Value Store implements the Getter interface;
  its \<open>Get(key, default)\<close> returns the default on a miss.\<close>

definition ContextGetter :: "ExecutionContext \<Rightarrow> Getter" where
  "ContextGetter c =
     Implementation
       (\<lambda>key defaultVal. case map_of (cxt_values c) key of None \<Rightarrow> defaultVal | Some v \<Rightarrow> v)
       (cxt_has c)"

text \<open>Modelled from the spec: the source a specifier's kind names, among the live
  Value Store and the request's path, query and post views.\<close>

fun source_of :: "ExecutionContext \<Rightarrow> Request \<Rightarrow> SourceKind \<Rightarrow> Getter" where
  "source_of c req FromContext = ContextGetter c"
| "source_of c req FromPath = request_path req"
| "source_of c req FromQuery = request_query req"
| "source_of c req FromPost = request_post req"

text \<open>Modelled from the spec: one entry of the ordered source list of a binding: the
  named source, probed under the specifier's own key.\<close>

definition probe :: "ExecutionContext \<Rightarrow> Request \<Rightarrow> SourceSpec \<Rightarrow> Getter" where
  "probe c req spec =
     Implementation
       (\<lambda>name defaultVal. Get (source_of c req (fst spec)) (snd spec) defaultVal)
       (\<lambda>name. Has (source_of c req (fst spec)) (snd spec))"

text \<open>Modelled from the spec: Binding. A parameter is resolved by \<open>GetFromFirst\<close>
  against the ordered source list, with the static default last; with no matching
  source and no default the operation receives the absent value.\<close>

definition resolve :: "ExecutionContext \<Rightarrow> Request \<Rightarrow> ParamBinding \<Rightarrow> ContextValue" where
  "resolve c req b =
     fst (GetFromFirst (param_name b)
            (case param_default b of None \<Rightarrow> VNil | Some d \<Rightarrow> d)
            (map (probe c req) (param_sources b)))"

text \<open>Modelled from the spec: the Params view assembled for one step, one resolved
  value for every declared parameter, in the order declared.\<close>

definition bind_params :: "ExecutionContext \<Rightarrow> Request \<Rightarrow> ParamBinding list \<Rightarrow> Params" where
  "bind_params c req bs = map (\<lambda>b. (param_name b, resolve c req b)) bs"

text \<open>Modelled from the spec: the conditions that end an execution in Halted-Error:
  an unresolved route, an unresolved operation (at a step of a route), a FatalError
  with the error the step returned, and the reroute hop limit exceeded.\<close>

datatype Failure =
    RouteNotFound string
  | OperationNotFound string nat
  | Fatal string
  | RerouteLimitExceeded

text \<open>Modelled from the spec: where the executor stands after a step or a run of
  steps: Continuing, Rerouting to a target, Halted-Ok or Halted-Error.\<close>

datatype Progress =
    Continuing
  | Rerouting string
  | HaltedOk
  | HaltedError Failure

text \<open>Modelled from the spec: the state of one execution: its Value Store; the lines
  written so far to the log sinks, as (logger, prefix, message); and, to observe which
  steps ran, the operations invoked so far, as (route id, step index, Params
  received).\<close>

record execution =
  exec_cxt :: ExecutionContext
  exec_log :: "(string \<times> string \<times> string) list"
  exec_invoked :: "(string \<times> nat \<times> Params) list"

text \<open>Modelled from the spec: \<open>Log\<close> against the context fans out to every
  registered sink, in registration order.\<close>

definition Log :: "execution \<Rightarrow> string \<Rightarrow> string \<Rightarrow> execution" where
  "Log st prefix msg =
     st\<lparr>exec_log := exec_log st @ map (\<lambda>l. (l, prefix, msg)) (cxt_loggers (exec_cxt st))\<rparr>"

text \<open>Modelled from the spec: the prefix under which the router logs a recoverable
  error; the specification leaves its text open.\<close>

definition error_prefix :: string where
  "error_prefix = ''error''"

text \<open>Modelled from the spec: storing a step's result under its output binding
  name.\<close>

definition store_result :: "execution \<Rightarrow> string \<Rightarrow> ContextValue \<Rightarrow> execution" where
  "store_result st name result = st\<lparr>exec_cxt := cxt_add (exec_cxt st) name result\<rparr>"

text \<open>Modelled from the spec: Continuing, on the signal of a step. On none the
  result is stored and the executor advances; on RecoverableError the error is logged
  via every registered logger, the result (if any) is still stored, and the executor
  advances; Stop halts with no error; Reroute abandons the remaining steps; FatalError
  halts and surfaces the error.\<close>

fun on_signal :: "execution \<Rightarrow> string \<Rightarrow> ContextValue \<Rightarrow> Signal \<Rightarrow> Progress \<times> execution" where
  "on_signal st name result NoSignal = (Continuing, store_result st name result)"
| "on_signal st name result (RecoverableError e) =
     (Continuing,
      (if result = VNil then Log st error_prefix e
       else store_result (Log st error_prefix e) name result))"
| "on_signal st name result Stop = (HaltedOk, st)"
| "on_signal st name result (Reroute target) = (Rerouting target, st)"
| "on_signal st name result (FatalError e) = (HaltedError (Fatal e), st)"

text \<open>Modelled from the spec: one step: Binding, then Invoking, then the
  reading of the signal. An operation reference that does not resolve is a
  fatal condition.\<close>

definition run_step :: "Request \<Rightarrow> string \<Rightarrow> nat \<Rightarrow> Step \<Rightarrow> execution \<Rightarrow> Progress \<times> execution" where
  "run_step req rid i s st =
     (case step_operation s of
        None \<Rightarrow> (HaltedError (OperationNotFound rid i), st)
      | Some cmd \<Rightarrow>
          (let params = bind_params (exec_cxt st) req (step_params s);
               (result, signal) = cmd (exec_cxt st) params
           in on_signal (st\<lparr>exec_invoked := exec_invoked st @ [(rid, i, params)]\<rparr>)
                (step_output s) result signal))"

text \<open>Modelled from the spec: the steps of a route run strictly in order, each after
  the signal of the one before has been interpreted; the run is still Continuing when
  the steps are used up.\<close>

fun run_steps :: "Request \<Rightarrow> string \<Rightarrow> nat \<Rightarrow> Step list \<Rightarrow> execution \<Rightarrow> Progress \<times> execution" where
  "run_steps req rid i [] st = (Continuing, st)"
| "run_steps req rid i (s # rest) st =
     (case run_step req rid i s st of
        (Continuing, st') \<Rightarrow> run_steps req rid (Suc i) rest st'
      | (p, st') \<Rightarrow> (p, st'))"

text \<open>Modelled from the spec: Resolving, the run of the route's steps, and Rerouting
  on the same Value Store. An unknown identifier ends in Halted-Error; after the last
  step the execution ends in Halted-Ok; a reroute restarts at the target's first step,
  and one more reroute than the hop limit allows (the first argument counts the hops
  left) is a fatal condition.\<close>

fun run_route :: "nat \<Rightarrow> Registry \<Rightarrow> Request \<Rightarrow> string \<Rightarrow> execution \<Rightarrow> Progress \<times> execution" where
  "run_route hops reg req rid st =
     (case map_of reg rid of
        None \<Rightarrow> (HaltedError (RouteNotFound rid), st)
      | Some entry \<Rightarrow>
          (case run_steps req rid 0 (route_steps entry) st of
             (Continuing, st') \<Rightarrow> (HaltedOk, st')
           | (Rerouting target, st') \<Rightarrow>
               (case hops of
                  0 \<Rightarrow> (HaltedError RerouteLimitExceeded, st')
                | Suc h \<Rightarrow> run_route h reg req target st')
           | (p, st') \<Rightarrow> (p, st')))"

text \<open>Modelled from the spec: one execution includes its chained reroutes. Where an
  execution that starts on a route stands after \<open>n\<close> reroutes: the hops left, the
  route it has switched to, and the state in which that route's first step is entered.
  There is no such point when a route on the way is unknown, does not end in a reroute,
  or the hop limit is used up.\<close>

fun reroute_chain :: "nat \<Rightarrow> Registry \<Rightarrow> Request \<Rightarrow> string \<Rightarrow> execution \<Rightarrow> nat
    \<Rightarrow> (nat \<times> string \<times> execution) option" where
  "reroute_chain hops reg req rid st 0 = Some (hops, rid, st)"
| "reroute_chain hops reg req rid st (Suc n) =
     (case map_of reg rid of
        None \<Rightarrow> None
      | Some entry \<Rightarrow>
          (case run_steps req rid 0 (route_steps entry) st of
             (Rerouting target, st') \<Rightarrow>
               (case hops of
                  0 \<Rightarrow> None
                | Suc h \<Rightarrow> reroute_chain h reg req target st' n)
           | (p, st') \<Rightarrow> None))"

subsection \<open>Example routes\<close>

text \<open>
  Inputs for running the executor: an operation that returns a fixed result and signal;
  one that hands on the parameter it received under a name, with no signal; a request
  with empty views; the state in which an execution starts on a store; a base context
  with the two loggers \<open>foo\<close> and \<open>bar\<close> of the logging tutorial; five steps, one of
  them rerouting to \<open>@error\<close>; a registry holding one route, \<open>GET /\<close>, as in the
  web tutorial; and one holding the route \<open>@error\<close> as well.
\<close>

definition returning :: "ContextValue \<Rightarrow> Signal \<Rightarrow> Command" where
  "returning v sig c p = (v, sig)"

definition echo :: "string \<Rightarrow> Command" where
  "echo name c p = (case map_of p name of None \<Rightarrow> (VNil, NoSignal) | Some v \<Rightarrow> (v, NoSignal))"

definition empty_request :: Request where
  "empty_request =
     \<lparr>request_path = GettableDatasource (TableDatasource []),
      request_query = GettableDatasource (TableDatasource []),
      request_post = GettableDatasource (TableDatasource [])\<rparr>"

definition start :: "ExecutionContext \<Rightarrow> execution" where
  "start c = \<lparr>exec_cxt = c, exec_log = [], exec_invoked = []\<rparr>"

definition base_context :: ExecutionContext where
  "base_context =
     cxt_add_logger (cxt_add_logger \<lparr>cxt_values = [], cxt_loggers = []\<rparr> ''foo'') ''bar''"

definition step_A :: Step where
  "step_A =
     \<lparr>step_operation = Some (returning (VString ''Route GET / executed'') NoSignal),
      step_output = ''x'', step_params = []\<rparr>"

definition step_B :: Step where
  "step_B =
     \<lparr>step_operation = Some (echo ''content''),
      step_output = ''y'',
      step_params = [\<lparr>param_name = ''content'', param_sources = [(FromContext, ''x'')],
                       param_default = None\<rparr>]\<rparr>"

definition step_R :: Step where
  "step_R =
     \<lparr>step_operation = Some (returning (VString ''partial'') (RecoverableError ''db down'')),
      step_output = ''x'', step_params = []\<rparr>"

definition step_F :: Step where
  "step_F =
     \<lparr>step_operation = Some (returning VNil (FatalError ''db gone'')),
      step_output = ''z'', step_params = []\<rparr>"

definition route_of :: "Step list \<Rightarrow> Registry" where
  "route_of steps = register [] ''GET /'' \<lparr>route_description = ''The Homepage'', route_steps = steps\<rparr>"

definition step_T :: Step where
  "step_T =
     \<lparr>step_operation = Some (returning VNil (Reroute ''@error'')),
      step_output = ''t'', step_params = []\<rparr>"

definition two_routes :: "Step list \<Rightarrow> Step list \<Rightarrow> Registry" where
  "two_routes steps steps' =
     register (route_of steps) ''@error''
       \<lparr>route_description = ''The error page'', route_steps = steps'\<rparr>"

section \<open>Properties of the Getter abstraction\<close>

lemma TypeOf_string: "TypeOf v \<noteq> TString \<Longrightarrow> assert_string v = Inl InterfaceConversion \<and> ok_string v = ([], False)"
  by (cases v) simp_all
lemma TypeOf_bool: "TypeOf v \<noteq> TBool \<Longrightarrow> assert_bool v = Inl InterfaceConversion \<and> ok_bool v = (False, False)"
  by (cases v) simp_all
lemma TypeOf_int: "TypeOf v \<noteq> TInt \<Longrightarrow> assert_int v = Inl InterfaceConversion \<and> ok_int v = (0, False)"
  by (cases v) simp_all
lemma TypeOf_int64: "TypeOf v \<noteq> TInt64 \<Longrightarrow> assert_int64 v = Inl InterfaceConversion \<and> ok_int64 v = (0, False)"
  by (cases v) simp_all
lemma TypeOf_int32: "TypeOf v \<noteq> TInt32 \<Longrightarrow> assert_int32 v = Inl InterfaceConversion \<and> ok_int32 v = (0, False)"
  by (cases v) simp_all
lemma TypeOf_uint64: "TypeOf v \<noteq> TUint64 \<Longrightarrow> assert_uint64 v = Inl InterfaceConversion \<and> ok_uint64 v = (0, False)"
  by (cases v) simp_all
lemma TypeOf_float64: "TypeOf v \<noteq> TFloat64 \<Longrightarrow> assert_float64 v = Inl InterfaceConversion \<and> ok_float64 v = (0, False)"
  by (cases v) simp_all

lemma GetFromFirst_Cons:
  "GetFromFirst key d (s # sources) =
     (if snd (Has s key) then (fst (Has s key), s) else GetFromFirst key d sources)"
  by (cases "Has s key") simp

lemma GetFromFirst_none:
  "\<forall>s \<in> set sources. \<not> snd (Has s key) \<Longrightarrow> GetFromFirst key d sources = (d, DefaultGetter d)"
  by (induction sources) (simp_all add: GetFromFirst_Cons del: GetFromFirst.simps(2))

lemma GetFromFirst_at:
  "i < length sources \<Longrightarrow> snd (Has (sources ! i) key) \<Longrightarrow> \<forall>j<i. \<not> snd (Has (sources ! j) key)
    \<Longrightarrow> GetFromFirst key d sources = (fst (Has (sources ! i) key), sources ! i)"
proof (induction sources arbitrary: i)
  case Nil
  then show ?case by simp
next
  case (Cons s sources)
  show ?case
  proof (cases i)
    case 0
    with Cons.prems show ?thesis by (simp add: GetFromFirst_Cons del: GetFromFirst.simps(2))
  next
    case (Suc n)
    with Cons.prems have miss: "\<not> snd (Has s key)" by auto
    from Suc Cons.prems have "GetFromFirst key d sources = (fst (Has (sources ! n) key), sources ! n)"
      by (intro Cons.IH) auto
    with miss Suc show ?thesis by (simp add: GetFromFirst_Cons del: GetFromFirst.simps(2))
  qed
qed

text \<open>
  Claim C1. For every key, default value and list of sources (the empty list included),
  \<open>GetFromFirst\<close> returns the value of the first source, in the order given, whose
  \<open>Has(key)\<close> reports true, together with that source: if source \<open>i\<close> has the key
  and no source before it does, the result is that source's value and that source.
  If no source has the key, the result is the default value together with a
  \<open>DefaultGetter\<close> whose \<open>Has(key)\<close> reports the default as found.
\<close>

theorem GetFromFirst_first_match:
  "(i < length sources \<and> snd (Has (sources ! i) key) \<and> (\<forall>j<i. \<not> snd (Has (sources ! j) key))
      \<longrightarrow> GetFromFirst key d sources = (fst (Has (sources ! i) key), sources ! i))
   \<and> ((\<forall>s \<in> set sources. \<not> snd (Has s key))
      \<longrightarrow> GetFromFirst key d sources = (d, DefaultGetter d)
          \<and> Has (snd (GetFromFirst key d sources)) key = (d, True))"
  using GetFromFirst_at [of i sources key d] GetFromFirst_none [of sources key d] by simp

theorem GetFromFirst_first_match_witness:
  "GetFromFirst ''msg'' (VString ''Hello World'')
      [GettableDatasource (TableDatasource [(''other'', VInt 1)]),
       GettableDatasource (TableDatasource [(''msg'', VString ''from path'')]),
       DefaultGetter (VString ''late'')]
     = (VString ''from path'', GettableDatasource (TableDatasource [(''msg'', VString ''from path'')]))
   \<and> GetFromFirst ''msg'' (VString ''Hello World'')
      [GettableDatasource (TableDatasource [(''other'', VInt 1)])]
     = (VString ''Hello World'', DefaultGetter (VString ''Hello World''))
   \<and> GetFromFirst ''msg'' (VString ''Hello World'') []
     = (VString ''Hello World'', DefaultGetter (VString ''Hello World''))"
  using GetFromFirst_first_match [of 1 "[GettableDatasource (TableDatasource [(''other'', VInt 1)]),
       GettableDatasource (TableDatasource [(''msg'', VString ''from path'')]),
       DefaultGetter (VString ''late'')]" "''msg''" "VString ''Hello World''"]
    GetFromFirst_first_match [of 0 "[GettableDatasource (TableDatasource [(''other'', VInt 1)])]" "''msg''" "VString ''Hello World''"]
    GetFromFirst_first_match [of 0 "[]" "''msg''" "VString ''Hello World''"]
  by simp

text \<open>
  Claim C10. A \<open>DefaultGetter\<close> built from a value \<open>v\<close> is a constant Getter: for every
  key and every default passed by the caller, \<open>Get\<close> returns \<open>v\<close> and \<open>Has\<close>
  returns \<open>v\<close> as found. In particular \<open>Get\<close> ignores the caller's default.
\<close>

theorem DefaultGetter_constant:
  "Get (DefaultGetter v) key d = v \<and> Has (DefaultGetter v) key = (v, True)"
  by simp

theorem DefaultGetter_constant_witness:
  "Get (DefaultGetter (VInt 42)) ''a'' (VInt 7) = VInt 42
   \<and> Get (DefaultGetter (VInt 42)) ''b'' (VString ''x'') = VInt 42
   \<and> Has (DefaultGetter (VInt 42)) ''a'' = (VInt 42, True)
   \<and> Has (DefaultGetter (VInt 42)) ''b'' = (VInt 42, True)"
  using DefaultGetter_constant [of "VInt 42" "''a''" "VInt 7"]
    DefaultGetter_constant [of "VInt 42" "''b''" "VString ''x''"]
  by simp

text \<open>
  Claim C2. Let a source hold the value \<open>v\<close> under a key: \<open>Has\<close> reports \<open>v\<close> as
  found and \<open>Get\<close> returns \<open>v\<close> whatever the default. For each of the seven typed
  accessor pairs, if the dynamic type of \<open>v\<close> is not the requested one, the typed
  \<open>Get\<close> accessor fails (the type assertion panics), while the typed \<open>Has\<close>
  accessor does not fail and reports the zero value as not found.
\<close>

theorem typed_Get_Has_asymmetry:
  assumes stored: "Has source key = (v, True)" and got: "\<forall>d. Get source key d = v"
  shows "(TypeOf v \<noteq> TString \<longrightarrow>
            GetString key ds source = Inl InterfaceConversion \<and> HasString key source = ([], False))
       \<and> (TypeOf v \<noteq> TBool \<longrightarrow>
            GetBool key db source = Inl InterfaceConversion \<and> HasBool key db source = (False, False))
       \<and> (TypeOf v \<noteq> TInt \<longrightarrow>
            GetInt key di source = Inl InterfaceConversion \<and> HasInt key di source = (0, False))
       \<and> (TypeOf v \<noteq> TInt32 \<longrightarrow>
            GetInt32 key dj source = Inl InterfaceConversion \<and> HasInt32 key dj source = (0, False))
       \<and> (TypeOf v \<noteq> TInt64 \<longrightarrow>
            GetInt64 key dk source = Inl InterfaceConversion \<and> HasInt64 key dk source = (0, False))
       \<and> (TypeOf v \<noteq> TUint64 \<longrightarrow>
            GetUint64 key du source = Inl InterfaceConversion \<and> HasUint64 key du source = (0, False))
       \<and> (TypeOf v \<noteq> TFloat64 \<longrightarrow>
            GetFloat64 key df source = Inl InterfaceConversion \<and> HasFloat64 key df source = (0, False))"
proof -
  have s: "TypeOf v \<noteq> TString \<longrightarrow>
      GetString key ds source = Inl InterfaceConversion \<and> HasString key source = ([], False)"
    using stored got TypeOf_string [of v] by (simp add: GetString_def HasString_def)
  have b: "TypeOf v \<noteq> TBool \<longrightarrow>
      GetBool key db source = Inl InterfaceConversion \<and> HasBool key db source = (False, False)"
    using stored got TypeOf_bool [of v] by (simp add: GetBool_def HasBool_def)
  have i: "TypeOf v \<noteq> TInt \<longrightarrow>
      GetInt key di source = Inl InterfaceConversion \<and> HasInt key di source = (0, False)"
    using stored got TypeOf_int [of v] by (simp add: GetInt_def HasInt_def)
  have j: "TypeOf v \<noteq> TInt32 \<longrightarrow>
      GetInt32 key dj source = Inl InterfaceConversion \<and> HasInt32 key dj source = (0, False)"
    using stored got TypeOf_int32 [of v] by (simp add: GetInt32_def HasInt32_def)
  have k: "TypeOf v \<noteq> TInt64 \<longrightarrow>
      GetInt64 key dk source = Inl InterfaceConversion \<and> HasInt64 key dk source = (0, False)"
    using stored got TypeOf_int64 [of v] by (simp add: GetInt64_def HasInt64_def)
  have u: "TypeOf v \<noteq> TUint64 \<longrightarrow>
      GetUint64 key du source = Inl InterfaceConversion \<and> HasUint64 key du source = (0, False)"
    using stored got TypeOf_uint64 [of v] by (simp add: GetUint64_def HasUint64_def)
  have f: "TypeOf v \<noteq> TFloat64 \<longrightarrow>
      GetFloat64 key df source = Inl InterfaceConversion \<and> HasFloat64 key df source = (0, False)"
    using stored got TypeOf_float64 [of v] by (simp add: GetFloat64_def HasFloat64_def)
  from s b i j k u f show ?thesis by blast
qed

theorem typed_Get_Has_asymmetry_witness:
  "Has (GettableDatasource (TableDatasource [(''test1'', VInt 42), (''test2'', VString ''Geronimo!'')])) ''test1''
      = (VInt 42, True)
   \<and> GetString ''test1'' ''none'' (GettableDatasource (TableDatasource [(''test1'', VInt 42), (''test2'', VString ''Geronimo!'')]))
      = Inl InterfaceConversion
   \<and> HasString ''test1'' (GettableDatasource (TableDatasource [(''test1'', VInt 42), (''test2'', VString ''Geronimo!'')]))
      = ([], False)
   \<and> GetBool ''test1'' True (GettableDatasource (TableDatasource [(''test1'', VInt 42), (''test2'', VString ''Geronimo!'')]))
      = Inl InterfaceConversion
   \<and> HasBool ''test1'' True (GettableDatasource (TableDatasource [(''test1'', VInt 42), (''test2'', VString ''Geronimo!'')]))
      = (False, False)
   \<and> GetInt ''test2'' 7 (GettableDatasource (TableDatasource [(''test1'', VInt 42), (''test2'', VString ''Geronimo!'')]))
      = Inl InterfaceConversion
   \<and> HasInt ''test2'' 7 (GettableDatasource (TableDatasource [(''test1'', VInt 42), (''test2'', VString ''Geronimo!'')]))
      = (0, False)
   \<and> GetInt32 ''test1'' 7 (GettableDatasource (TableDatasource [(''test1'', VInt 42), (''test2'', VString ''Geronimo!'')]))
      = Inl InterfaceConversion
   \<and> HasInt32 ''test1'' 7 (GettableDatasource (TableDatasource [(''test1'', VInt 42), (''test2'', VString ''Geronimo!'')]))
      = (0, False)
   \<and> GetInt64 ''test1'' 7 (GettableDatasource (TableDatasource [(''test1'', VInt 42), (''test2'', VString ''Geronimo!'')]))
      = Inl InterfaceConversion
   \<and> HasInt64 ''test1'' 7 (GettableDatasource (TableDatasource [(''test1'', VInt 42), (''test2'', VString ''Geronimo!'')]))
      = (0, False)
   \<and> GetUint64 ''test1'' 7 (GettableDatasource (TableDatasource [(''test1'', VInt 42), (''test2'', VString ''Geronimo!'')]))
      = Inl InterfaceConversion
   \<and> HasUint64 ''test1'' 7 (GettableDatasource (TableDatasource [(''test1'', VInt 42), (''test2'', VString ''Geronimo!'')]))
      = (0, False)
   \<and> GetFloat64 ''test1'' 7 (GettableDatasource (TableDatasource [(''test1'', VInt 42), (''test2'', VString ''Geronimo!'')]))
      = Inl InterfaceConversion
   \<and> HasFloat64 ''test1'' 7 (GettableDatasource (TableDatasource [(''test1'', VInt 42), (''test2'', VString ''Geronimo!'')]))
      = (0, False)"
proof -
  let ?g = "GettableDatasource (TableDatasource [(''test1'', VInt 42), (''test2'', VString ''Geronimo!'')])"
  have h1: "Has ?g ''test1'' = (VInt 42, True)" by simp
  have g1: "\<forall>d. Get ?g ''test1'' d = VInt 42" by simp
  have h2: "Has ?g ''test2'' = (VString ''Geronimo!'', True)" by simp
  have g2: "\<forall>d. Get ?g ''test2'' d = VString ''Geronimo!''" by simp
  show ?thesis
    using h1 typed_Get_Has_asymmetry [OF h1 g1, of "''none''" True 7 7 7 7 7]
      typed_Get_Has_asymmetry [OF h2 g2, of "''none''" True 7 7 7 7 7]
    by simp
qed

lemma typed_Has_miss:
  "\<not> snd (Has source key) \<Longrightarrow>
     HasString key source = ([], False) \<and> HasBool key b source = (False, False)
     \<and> HasInt key i source = (0, False) \<and> HasInt64 key k source = (0, False)
     \<and> HasInt32 key j source = (0, False) \<and> HasUint64 key u source = (0, False)
     \<and> HasFloat64 key f source = (0, False)"
  by (cases "Has source key")
    (simp add: HasString_def HasBool_def HasInt_def HasInt64_def HasInt32_def HasUint64_def
      HasFloat64_def)

lemma HasBool_mismatch:
  "TypeOf (fst (Has source key)) \<noteq> TBool \<Longrightarrow> HasBool key b source = (False, False)"
  using TypeOf_bool [of "fst (Has source key)"]
  by (cases "Has source key") (simp add: HasBool_def)

lemma HasInt_mismatch:
  "TypeOf (fst (Has source key)) \<noteq> TInt \<Longrightarrow> HasInt key i source = (0, False)"
  using TypeOf_int [of "fst (Has source key)"]
  by (cases "Has source key") (simp add: HasInt_def)

lemma HasInt64_mismatch:
  "TypeOf (fst (Has source key)) \<noteq> TInt64 \<Longrightarrow> HasInt64 key k source = (0, False)"
  using TypeOf_int64 [of "fst (Has source key)"]
  by (cases "Has source key") (simp add: HasInt64_def)

lemma HasInt32_mismatch:
  "TypeOf (fst (Has source key)) \<noteq> TInt32 \<Longrightarrow> HasInt32 key j source = (0, False)"
  using TypeOf_int32 [of "fst (Has source key)"]
  by (cases "Has source key") (simp add: HasInt32_def)

lemma HasUint64_mismatch:
  "TypeOf (fst (Has source key)) \<noteq> TUint64 \<Longrightarrow> HasUint64 key u source = (0, False)"
  using TypeOf_uint64 [of "fst (Has source key)"]
  by (cases "Has source key") (simp add: HasUint64_def)

lemma HasFloat64_mismatch:
  "TypeOf (fst (Has source key)) \<noteq> TFloat64 \<Longrightarrow> HasFloat64 key f source = (0, False)"
  using TypeOf_float64 [of "fst (Has source key)"]
  by (cases "Has source key") (simp add: HasFloat64_def)

text \<open>
  Claim C9. The typed \<open>Has\<close> accessors that take a default parameter (\<open>HasBool\<close>,
  \<open>HasInt\<close>, \<open>HasInt64\<close>, \<open>HasInt32\<close>, \<open>HasUint64\<close>, \<open>HasFloat64\<close>) never use it:
  the result is the same for any two defaults, and on a missing key or a value of
  another type it is the zero value of the type (\<open>false\<close> or \<open>0\<close>) paired with
  \<open>false\<close>.
\<close>

theorem typed_Has_default_unused:
  "HasBool key b source = HasBool key b' source
   \<and> HasInt key i source = HasInt key i' source
   \<and> HasInt64 key k source = HasInt64 key k' source
   \<and> HasInt32 key j source = HasInt32 key j' source
   \<and> HasUint64 key u source = HasUint64 key u' source
   \<and> HasFloat64 key f source = HasFloat64 key f' source
   \<and> (\<not> snd (Has source key) \<or> TypeOf (fst (Has source key)) \<noteq> TBool
        \<longrightarrow> HasBool key b source = (False, False))
   \<and> (\<not> snd (Has source key) \<or> TypeOf (fst (Has source key)) \<noteq> TInt
        \<longrightarrow> HasInt key i source = (0, False))
   \<and> (\<not> snd (Has source key) \<or> TypeOf (fst (Has source key)) \<noteq> TInt64
        \<longrightarrow> HasInt64 key k source = (0, False))
   \<and> (\<not> snd (Has source key) \<or> TypeOf (fst (Has source key)) \<noteq> TInt32
        \<longrightarrow> HasInt32 key j source = (0, False))
   \<and> (\<not> snd (Has source key) \<or> TypeOf (fst (Has source key)) \<noteq> TUint64
        \<longrightarrow> HasUint64 key u source = (0, False))
   \<and> (\<not> snd (Has source key) \<or> TypeOf (fst (Has source key)) \<noteq> TFloat64
        \<longrightarrow> HasFloat64 key f source = (0, False))"
proof -
  have same: "HasBool key b source = HasBool key b' source
      \<and> HasInt key i source = HasInt key i' source
      \<and> HasInt64 key k source = HasInt64 key k' source
      \<and> HasInt32 key j source = HasInt32 key j' source
      \<and> HasUint64 key u source = HasUint64 key u' source
      \<and> HasFloat64 key f source = HasFloat64 key f' source"
    by (simp add: HasBool_def HasInt_def HasInt64_def HasInt32_def HasUint64_def HasFloat64_def)
  show ?thesis
    using same typed_Has_miss [of source key b i k j u f]
      HasBool_mismatch [of source key b] HasInt_mismatch [of source key i]
      HasInt64_mismatch [of source key k] HasInt32_mismatch [of source key j]
      HasUint64_mismatch [of source key u] HasFloat64_mismatch [of source key f]
    by blast
qed

theorem typed_Has_default_unused_witness:
  "HasBool ''absent'' True (GettableDatasource (TableDatasource [(''test2'', VString ''Geronimo!'')])) = (False, False)
   \<and> HasInt ''absent'' 7 (GettableDatasource (TableDatasource [(''test2'', VString ''Geronimo!'')])) = (0, False)
   \<and> HasInt64 ''absent'' 7 (GettableDatasource (TableDatasource [(''test2'', VString ''Geronimo!'')])) = (0, False)
   \<and> HasInt32 ''absent'' 7 (GettableDatasource (TableDatasource [(''test2'', VString ''Geronimo!'')])) = (0, False)
   \<and> HasUint64 ''absent'' 7 (GettableDatasource (TableDatasource [(''test2'', VString ''Geronimo!'')])) = (0, False)
   \<and> HasFloat64 ''absent'' 7 (GettableDatasource (TableDatasource [(''test2'', VString ''Geronimo!'')])) = (0, False)
   \<and> HasBool ''test2'' True (GettableDatasource (TableDatasource [(''test2'', VString ''Geronimo!'')])) = (False, False)
   \<and> HasInt ''test2'' 7 (GettableDatasource (TableDatasource [(''test2'', VString ''Geronimo!'')])) = (0, False)
   \<and> HasInt64 ''test2'' 7 (GettableDatasource (TableDatasource [(''test2'', VString ''Geronimo!'')])) = (0, False)
   \<and> HasInt32 ''test2'' 7 (GettableDatasource (TableDatasource [(''test2'', VString ''Geronimo!'')])) = (0, False)
   \<and> HasUint64 ''test2'' 7 (GettableDatasource (TableDatasource [(''test2'', VString ''Geronimo!'')])) = (0, False)
   \<and> HasFloat64 ''test2'' 7 (GettableDatasource (TableDatasource [(''test2'', VString ''Geronimo!'')])) = (0, False)"
  using typed_Has_default_unused [of "''absent''" True
      "GettableDatasource (TableDatasource [(''test2'', VString ''Geronimo!'')])" True 7 7 7 7 7 7 7 7 7 7]
    typed_Has_default_unused [of "''test2''" True
      "GettableDatasource (TableDatasource [(''test2'', VString ''Geronimo!'')])" True 7 7 7 7 7 7 7 7 7 7]
  by simp

text \<open>
  Claim C3 as stated fails: on a datasource that holds the integer 42 under
  \<open>test1\<close>, \<open>GetString\<close> with the default \<open>fallback\<close> does not return the default.
  The single-value type assertion panics.
\<close>

theorem typed_Get_mismatch_counterexample:
  "Has (GettableDatasource (TableDatasource [(''test1'', VInt 42)])) ''test1'' = (VInt 42, True)
   \<and> GetString ''test1'' ''fallback'' (GettableDatasource (TableDatasource [(''test1'', VInt 42)]))
        = Inl InterfaceConversion
   \<and> GetString ''test1'' ''fallback'' (GettableDatasource (TableDatasource [(''test1'', VInt 42)]))
        \<noteq> Inr ''fallback''"
  by (simp add: GetString_def)

lemma Get_hit:
  "ds key \<noteq> VNil \<Longrightarrow> Get (GettableDatasource ds) key d = ds key"
  by (cases "ds key") simp_all

text \<open>
  Claim C3, amended. \<open>Get(key, default)\<close> of a \<open>GettableDatasource\<close> returns the
  default when the key is absent (the datasource yields nil) and the stored value
  otherwise, so that every typed \<open>Get\<close> accessor returns the supplied default on an
  absent key. For every Getter, a typed \<open>Get\<close> accessor whose source yields a value
  of another type does not return the supplied default: it fails with the panic of the
  type assertion.
\<close>

theorem Get_default_on_miss_panic_on_mismatch:
  "(ds key = VNil \<longrightarrow>
      Get (GettableDatasource ds) key d = d
      \<and> GetString key s (GettableDatasource ds) = Inr s
      \<and> GetBool key b (GettableDatasource ds) = Inr b
      \<and> GetInt key i (GettableDatasource ds) = Inr i
      \<and> GetInt64 key k (GettableDatasource ds) = Inr k
      \<and> GetInt32 key j (GettableDatasource ds) = Inr j
      \<and> GetUint64 key u (GettableDatasource ds) = Inr u
      \<and> GetFloat64 key f (GettableDatasource ds) = Inr f)
   \<and> (ds key \<noteq> VNil \<longrightarrow> Get (GettableDatasource ds) key d = ds key)
   \<and> (TypeOf (Get source key (VString s)) \<noteq> TString \<longrightarrow>
        GetString key s source = Inl InterfaceConversion)
   \<and> (TypeOf (Get source key (VBool b)) \<noteq> TBool \<longrightarrow>
        GetBool key b source = Inl InterfaceConversion)
   \<and> (TypeOf (Get source key (VInt i)) \<noteq> TInt \<longrightarrow>
        GetInt key i source = Inl InterfaceConversion)
   \<and> (TypeOf (Get source key (VInt64 k)) \<noteq> TInt64 \<longrightarrow>
        GetInt64 key k source = Inl InterfaceConversion)
   \<and> (TypeOf (Get source key (VInt32 j)) \<noteq> TInt32 \<longrightarrow>
        GetInt32 key j source = Inl InterfaceConversion)
   \<and> (TypeOf (Get source key (VUint64 u)) \<noteq> TUint64 \<longrightarrow>
        GetUint64 key u source = Inl InterfaceConversion)
   \<and> (TypeOf (Get source key (VFloat64 f)) \<noteq> TFloat64 \<longrightarrow>
        GetFloat64 key f source = Inl InterfaceConversion)"
proof -
  have miss: "ds key = VNil \<longrightarrow>
      Get (GettableDatasource ds) key d = d
      \<and> GetString key s (GettableDatasource ds) = Inr s
      \<and> GetBool key b (GettableDatasource ds) = Inr b
      \<and> GetInt key i (GettableDatasource ds) = Inr i
      \<and> GetInt64 key k (GettableDatasource ds) = Inr k
      \<and> GetInt32 key j (GettableDatasource ds) = Inr j
      \<and> GetUint64 key u (GettableDatasource ds) = Inr u
      \<and> GetFloat64 key f (GettableDatasource ds) = Inr f"
    by (simp add: GetString_def GetBool_def GetInt_def GetInt64_def GetInt32_def GetUint64_def
        GetFloat64_def)
  have hit: "ds key \<noteq> VNil \<longrightarrow> Get (GettableDatasource ds) key d = ds key"
    using Get_hit [of ds key d] by blast
  show ?thesis
    using miss hit
      TypeOf_string [of "Get source key (VString s)"]
      TypeOf_bool [of "Get source key (VBool b)"]
      TypeOf_int [of "Get source key (VInt i)"]
      TypeOf_int64 [of "Get source key (VInt64 k)"]
      TypeOf_int32 [of "Get source key (VInt32 j)"]
      TypeOf_uint64 [of "Get source key (VUint64 u)"]
      TypeOf_float64 [of "Get source key (VFloat64 f)"]
    unfolding GetString_def GetBool_def GetInt_def GetInt64_def GetInt32_def GetUint64_def
      GetFloat64_def
    by blast
qed

theorem Get_default_on_miss_panic_on_mismatch_witness:
  "Get (GettableDatasource (TableDatasource [(''test1'', VInt 42)])) ''absent'' (VOther 5) = VOther 5
   \<and> GetString ''absent'' ''fallback'' (GettableDatasource (TableDatasource [(''test1'', VInt 42)])) = Inr ''fallback''
   \<and> GetInt ''absent'' 7 (GettableDatasource (TableDatasource [(''test1'', VInt 42)])) = Inr 7
   \<and> Get (GettableDatasource (TableDatasource [(''test1'', VInt 42)])) ''test1'' (VOther 5) = VInt 42
   \<and> GetString ''test1'' ''fallback'' (GettableDatasource (TableDatasource [(''test1'', VInt 42)])) = Inl InterfaceConversion
   \<and> GetBool ''test1'' True (GettableDatasource (TableDatasource [(''test1'', VInt 42)])) = Inl InterfaceConversion
   \<and> GetInt64 ''test1'' 7 (GettableDatasource (TableDatasource [(''test1'', VInt 42)])) = Inl InterfaceConversion
   \<and> GetInt32 ''test1'' 7 (GettableDatasource (TableDatasource [(''test1'', VInt 42)])) = Inl InterfaceConversion
   \<and> GetUint64 ''test1'' 7 (GettableDatasource (TableDatasource [(''test1'', VInt 42)])) = Inl InterfaceConversion
   \<and> GetFloat64 ''test1'' 7 (GettableDatasource (TableDatasource [(''test1'', VInt 42)])) = Inl InterfaceConversion
   \<and> GetInt ''test1'' 7 (DefaultGetter (VString ''set'')) = Inl InterfaceConversion"
  using Get_default_on_miss_panic_on_mismatch [of "TableDatasource [(''test1'', VInt 42)]" "''absent''"
      "VOther 5" "''fallback''" True 7 7 7 7 7 "DefaultGetter (VString ''set'')"]
    Get_default_on_miss_panic_on_mismatch [of "TableDatasource [(''test1'', VInt 42)]" "''test1''"
      "VOther 5" "''fallback''" True 7 7 7 7 7 "GettableDatasource (TableDatasource [(''test1'', VInt 42)])"]
    Get_default_on_miss_panic_on_mismatch [of "TableDatasource [(''test1'', VInt 42)]" "''test1''"
      "VOther 5" "''fallback''" True 7 7 7 7 7 "DefaultGetter (VString ''set'')"]
  by simp

section \<open>Properties of the Value Store\<close>

text \<open>
  The stores reached from \<open>NewContext\<close> by \<open>Add\<close>, \<open>Remove\<close> and \<open>Copy\<close> keep
  their keys distinct, so that \<open>Len\<close> counts the keys; registering loggers keeps
  their names distinct.
\<close>

lemma cxt_add_distinct:
  "distinct (map fst (cxt_values c)) \<Longrightarrow> distinct (map fst (cxt_values (cxt_add c key v)))"
  by (simp add: cxt_add_def distinct_update)

lemma cxt_remove_distinct:
  "distinct (map fst (cxt_values c)) \<Longrightarrow> distinct (map fst (cxt_values (cxt_remove c key)))"
  by (simp add: cxt_remove_def distinct_delete)

lemma cxt_len_keys:
  "distinct (map fst (cxt_values c)) \<Longrightarrow> cxt_len c = card (cxt_keys c)"
  using distinct_card [of "map fst (cxt_values c)"] by (simp add: cxt_len_def cxt_keys_def)

lemma cxt_add_logger_distinct:
  "distinct (cxt_loggers c) \<Longrightarrow> distinct (cxt_loggers (cxt_add_logger c name))"
  by (simp add: cxt_add_logger_def)



lemma Copy_snapshot:
  assumes "s < length (contexts w)" and "Copy w s = (c, w1)"
  shows "c \<noteq> s" and "contexts w1 ! c = contexts w ! s" and "contexts w1 ! s = contexts w ! s"
  using assms by (auto simp: Copy_def nth_append)


lemma TestCopy_setup_eq:
  "TestCopy_setup =
     \<lparr>contexts = [\<lparr>cxt_values = [(''a'', VPointer 0), (''b'', VString ''This is the song that never ends'')],
                   cxt_loggers = []\<rparr>],
      structs = [\<lparr>stuff = [''O'', ''Hai'']\<rparr>]\<rparr>"
  by (simp add: TestCopy_setup_def NewLameStruct_def NewContext_def empty_world_def Add_def cxt_add_def)


lemma SetStuff_contexts: "SetStuff w p i x = Inr w' \<Longrightarrow> contexts w' = contexts w"
  by (auto simp: SetStuff_def split: if_splits)

lemma SetStuff_read:
  "SetStuff w p i x = Inr w' \<Longrightarrow> GetStuff w' (VPointer p) i = Inr x"
  by (auto simp: SetStuff_def split: if_splits)

text \<open>
  Claim C5. Let \<open>c\<close> be the copy of a live store \<open>s\<close> that holds a pointer to a
  struct under a key. After a write into the struct through that pointer, both stores
  still hold the same pointer under the key, and reading the written field through the
  value found in either store yields the written element: the aggregate is shared, not
  copied.
\<close>

theorem Copy_shares_aggregates:
  assumes live: "s < length (contexts w)" and copy: "Copy w s = (c, w1)"
    and stored: "Has_cxt w s key = (VPointer p, True)"
    and mutated: "SetStuff w1 p i x = Inr w2"
  shows "Has_cxt w2 s key = (VPointer p, True) \<and> Has_cxt w2 c key = (VPointer p, True)
       \<and> GetStuff w2 (fst (Has_cxt w2 s key)) i = Inr x
       \<and> GetStuff w2 (fst (Has_cxt w2 c key)) i = Inr x"
proof -
  note snap = Copy_snapshot [OF live copy]
  have same: "contexts w2 = contexts w1"
    using mutated by (rule SetStuff_contexts)
  have s: "Has_cxt w2 s key = (VPointer p, True)"
    using stored by (simp add: Has_cxt_def same snap(3))
  have c: "Has_cxt w2 c key = (VPointer p, True)"
    using stored by (simp add: Has_cxt_def same snap(2))
  from s c SetStuff_read [OF mutated] show ?thesis by simp
qed

theorem Copy_shares_aggregates_witness:
  "0 < length (contexts TestCopy_setup)
   \<and> fst (Copy TestCopy_setup 0) = 1
   \<and> Has_cxt TestCopy_setup 0 ''a'' = (VPointer 0, True)
   \<and> GetStuff (snd (Copy TestCopy_setup 0)) (fst (Has_cxt (snd (Copy TestCopy_setup 0)) 1 ''a'')) 1
        = Inr ''Hai''
   \<and> SetStuff (snd (Copy TestCopy_setup 0)) 0 1 ''Noes''
        = Inr ((snd (Copy TestCopy_setup 0))\<lparr>structs := [\<lparr>stuff = [''O'', ''Noes'']\<rparr>]\<rparr>)
   \<and> GetStuff ((snd (Copy TestCopy_setup 0))\<lparr>structs := [\<lparr>stuff = [''O'', ''Noes'']\<rparr>]\<rparr>)
        (fst (Has_cxt ((snd (Copy TestCopy_setup 0))\<lparr>structs := [\<lparr>stuff = [''O'', ''Noes'']\<rparr>]\<rparr>) 1 ''a'')) 1
        = Inr ''Noes''
   \<and> GetStuff ((snd (Copy TestCopy_setup 0))\<lparr>structs := [\<lparr>stuff = [''O'', ''Noes'']\<rparr>]\<rparr>)
        (fst (Has_cxt ((snd (Copy TestCopy_setup 0))\<lparr>structs := [\<lparr>stuff = [''O'', ''Noes'']\<rparr>]\<rparr>) 0 ''a'')) 1
        = Inr ''Noes''"
proof -
  have live: "0 < length (contexts TestCopy_setup)"
    by (simp add: TestCopy_setup_eq)
  have copy: "Copy TestCopy_setup 0 = (1, snd (Copy TestCopy_setup 0))"
    by (simp add: TestCopy_setup_eq Copy_def)
  have stored: "Has_cxt TestCopy_setup 0 ''a'' = (VPointer 0, True)"
    by (simp add: TestCopy_setup_eq Has_cxt_def cxt_has_def)
  have mutated: "SetStuff (snd (Copy TestCopy_setup 0)) 0 1 ''Noes''
      = Inr ((snd (Copy TestCopy_setup 0))\<lparr>structs := [\<lparr>stuff = [''O'', ''Noes'']\<rparr>]\<rparr>)"
    by (simp add: TestCopy_setup_eq Copy_def SetStuff_def)
  have before: "GetStuff (snd (Copy TestCopy_setup 0))
      (fst (Has_cxt (snd (Copy TestCopy_setup 0)) 1 ''a'')) 1 = Inr ''Hai''"
    by (simp add: TestCopy_setup_eq Copy_def Has_cxt_def cxt_has_def)
  have handle: "fst (Copy TestCopy_setup 0) = 1"
    by (simp add: TestCopy_setup_eq Copy_def)
  show ?thesis
    using live handle stored before mutated Copy_shares_aggregates [OF live copy stored mutated]
    by simp
qed

section \<open>Properties of the chain executor\<close>

declare run_route.simps [simp del]

lemma on_signal_invoked: "exec_invoked (snd (on_signal st name result sig)) = exec_invoked st"
  by (cases sig) (simp_all add: store_result_def Log_def)

lemma run_step_invoked:
  "\<exists>ext. exec_invoked (snd (run_step req rid i s st)) = exec_invoked st @ ext"
proof (cases "step_operation s")
  case None
  then show ?thesis by (simp add: run_step_def)
next
  case (Some cmd)
  then show ?thesis
    by (simp add: run_step_def Let_def on_signal_invoked split: prod.split)
qed

lemma run_steps_invoked:
  "\<exists>ext. exec_invoked (snd (run_steps req rid i steps st)) = exec_invoked st @ ext"
proof (induction steps arbitrary: i st)
  case Nil
  then show ?case by simp
next
  case (Cons s rest)
  obtain p st' where step: "run_step req rid i s st = (p, st')"
    by (cases "run_step req rid i s st")
  obtain ext where ext: "exec_invoked st' = exec_invoked st @ ext"
    using run_step_invoked [of req rid i s st] step by auto
  show ?case
  proof (cases p)
    case Continuing
    obtain ext' where "exec_invoked (snd (run_steps req rid (Suc i) rest st')) = exec_invoked st' @ ext'"
      using Cons.IH [of "Suc i" st'] by blast
    with step Continuing ext show ?thesis by simp
  qed (use step ext in simp_all)
qed

lemma run_route_invoked:
  "\<exists>ext. exec_invoked (snd (run_route hops reg req rid st)) = exec_invoked st @ ext"
proof (induction hops arbitrary: rid st)
  case 0
  show ?case
  proof (cases "map_of reg rid")
    case None
    then show ?thesis by (simp add: run_route.simps)
  next
    case (Some entry)
    obtain p st' where run: "run_steps req rid 0 (route_steps entry) st = (p, st')"
      by (cases "run_steps req rid 0 (route_steps entry) st")
    obtain ext where "exec_invoked st' = exec_invoked st @ ext"
      using run_steps_invoked [of req rid 0 "route_steps entry" st] run by auto
    with Some run show ?thesis
      by (cases p) (simp_all add: run_route.simps [of 0])
  qed
next
  case (Suc h)
  show ?case
  proof (cases "map_of reg rid")
    case None
    then show ?thesis by (simp add: run_route.simps)
  next
    case (Some entry)
    obtain p st' where run: "run_steps req rid 0 (route_steps entry) st = (p, st')"
      by (cases "run_steps req rid 0 (route_steps entry) st")
    obtain ext where ext: "exec_invoked st' = exec_invoked st @ ext"
      using run_steps_invoked [of req rid 0 "route_steps entry" st] run by auto
    show ?thesis
    proof (cases p)
      case (Rerouting target)
      obtain ext' where "exec_invoked (snd (run_route h reg req target st')) = exec_invoked st' @ ext'"
        using Suc.IH [of target st'] by blast
      with Some run Rerouting ext show ?thesis
        by (simp add: run_route.simps [of "Suc h"])
    qed (use Some run ext in \<open>simp_all add: run_route.simps [of "Suc h"]\<close>)
  qed
qed

lemma run_steps_append:
  "run_steps req rid i (pre @ rest) st =
     (case run_steps req rid i pre st of
        (Continuing, st1) \<Rightarrow> run_steps req rid (i + length pre) rest st1
      | (p, st1) \<Rightarrow> (p, st1))"
proof (induction pre arbitrary: i st)
  case Nil
  then show ?case by simp
next
  case (Cons s pre)
  obtain p st' where step: "run_step req rid i s st = (p, st')"
    by (cases "run_step req rid i s st")
  show ?case
    using step Cons.IH [of "Suc i" st']
    by (cases p) (simp_all split: prod.split Progress.split)
qed

lemma run_steps_reach:
  assumes "run_steps req rid i pre st = (Continuing, st1)"
  shows "run_steps req rid i (pre @ s # rest) st =
     (case run_step req rid (i + length pre) s st1 of
        (Continuing, st2) \<Rightarrow> run_steps req rid (Suc (i + length pre)) rest st2
      | (p, st2) \<Rightarrow> (p, st2))"
  using assms by (simp add: run_steps_append)


lemma run_step_signal:
  assumes "step_operation s = Some cmd"
    and "cmd (exec_cxt st) (bind_params (exec_cxt st) req (step_params s)) = (result, sig)"
  shows "run_step req rid i s st =
           on_signal (st\<lparr>exec_invoked := exec_invoked st
                          @ [(rid, i, bind_params (exec_cxt st) req (step_params s))]\<rparr>)
             (step_output s) result sig"
  using assms by (simp add: run_step_def)


lemma run_route_after_steps:
  assumes "map_of reg rid = Some entry"
    and "run_steps req rid 0 (route_steps entry) st = (p, st')"
  shows "\<exists>ext. exec_invoked (snd (run_route hops reg req rid st)) = exec_invoked st' @ ext"
proof (cases p)
  case (Rerouting target)
  show ?thesis
  proof (cases hops)
    case 0
    with assms Rerouting show ?thesis by (simp add: run_route.simps [of 0])
  next
    case (Suc h)
    with assms Rerouting show ?thesis
      using run_route_invoked [of h reg req target st'] by (simp add: run_route.simps [of "Suc h"])
  qed
qed (use assms in \<open>simp_all add: run_route.simps [of hops]\<close>)

lemma run_route_halted:
  assumes "map_of reg rid = Some entry"
    and "run_steps req rid 0 (route_steps entry) st = (HaltedError f, st')"
  shows "run_route hops reg req rid st = (HaltedError f, st')"
  using assms by (simp add: run_route.simps [of hops])

lemma run_route_completed:
  assumes "map_of reg rid = Some entry"
    and "run_steps req rid 0 (route_steps entry) st = (Continuing, st')"
  shows "run_route hops reg req rid st = (HaltedOk, st')"
  using assms by (simp add: run_route.simps [of hops])



lemma reroute_chain_run_route:
  "reroute_chain hops0 reg req rid0 st0 n = Some (hops, rid, st)
     \<Longrightarrow> run_route hops0 reg req rid0 st0 = run_route hops reg req rid st"
proof (induction n arbitrary: hops0 rid0 st0)
  case 0
  then show ?case by simp
next
  case (Suc n)
  from Suc.prems obtain entry where entry: "map_of reg rid0 = Some entry"
    by (cases "map_of reg rid0") simp_all
  obtain p st' where run: "run_steps req rid0 0 (route_steps entry) st0 = (p, st')"
    by (cases "run_steps req rid0 0 (route_steps entry) st0")
  from Suc.prems entry run obtain target where p: "p = Rerouting target"
    by (cases p) simp_all
  from Suc.prems entry run p obtain h where h: "hops0 = Suc h"
    by (cases hops0) simp_all
  from Suc.prems entry run p h
  have "reroute_chain h reg req target st' n = Some (hops, rid, st)" by simp
  then have "run_route h reg req target st' = run_route hops reg req rid st"
    by (rule Suc.IH)
  with entry run p h show ?case by (simp add: run_route.simps [of "Suc h"])
qed

lemmas chain_defs = step_T_def two_routes_def

lemmas fixture_defs = returning_def echo_def empty_request_def start_def base_context_def
  step_A_def step_B_def step_R_def step_F_def route_of_def register_def cxt_add_logger_def

lemmas executor_defs = run_step_def bind_params_def resolve_def probe_def ContextGetter_def
  cxt_has_def cxt_add_def store_result_def Log_def error_prefix_def


lemma resolve_from_context:
  assumes "cxt_has c x = (v, True)"
  shows "resolve c req \<lparr>param_name = p, param_sources = [(FromContext, x)], param_default = dflt\<rparr> = v"
  using assms by (simp add: resolve_def probe_def ContextGetter_def)

text \<open>
  Claim C6. Take a registered route with two steps: \<open>A\<close>, stored under an output
  name \<open>x\<close>, and \<open>B\<close>, whose single parameter is bound to the context source under
  the key \<open>x\<close>. If \<open>A\<close> completes with signal none, then executing the route
  applies \<open>B\<close> to the store that holds the result of \<open>A\<close> under \<open>x\<close> and to
  Params that hold, under the parameter's name, exactly the value \<open>A\<close> returned, and
  the run of the steps is what the signal of that application makes of it: the result
  of \<open>A\<close> is stored before the binding of \<open>B\<close> is resolved. In particular, when
  that application returns signal none, the route ends in Halted-Ok with the result of
  \<open>B\<close> stored under its output name; and \<open>A\<close> and \<open>B\<close> with these Params are the
  first two operations invoked.
\<close>

theorem second_step_receives_first_result:
  assumes entry: "map_of reg rid = Some entry"
    and steps: "route_steps entry = [sa, sb]"
    and opA: "step_operation sa = Some A"
    and outA: "step_output sa = x"
    and opB: "step_operation sb = Some B"
    and bindB: "step_params sb
                  = [\<lparr>param_name = p, param_sources = [(FromContext, x)], param_default = dflt\<rparr>]"
    and retA: "A (exec_cxt st) (bind_params (exec_cxt st) req (step_params sa)) = (ra, NoSignal)"
  shows "run_steps req rid 0 (route_steps entry) st
           = on_signal
               \<lparr>exec_cxt = cxt_add (exec_cxt st) x ra,
                exec_log = exec_log st,
                exec_invoked = exec_invoked st
                  @ [(rid, 0, bind_params (exec_cxt st) req (step_params sa)), (rid, 1, [(p, ra)])]\<rparr>
               (step_output sb)
               (fst (B (cxt_add (exec_cxt st) x ra) [(p, ra)]))
               (snd (B (cxt_add (exec_cxt st) x ra) [(p, ra)]))
       \<and> (B (cxt_add (exec_cxt st) x ra) [(p, ra)] = (rb, NoSignal) \<longrightarrow>
            run_route hops reg req rid st
              = (HaltedOk,
                 \<lparr>exec_cxt = cxt_add (cxt_add (exec_cxt st) x ra) (step_output sb) rb,
                  exec_log = exec_log st,
                  exec_invoked = exec_invoked st
                    @ [(rid, 0, bind_params (exec_cxt st) req (step_params sa)),
                       (rid, 1, [(p, ra)])]\<rparr>))
       \<and> take (length (exec_invoked st) + 2) (exec_invoked (snd (run_route hops reg req rid st)))
           = exec_invoked st
               @ [(rid, 0, bind_params (exec_cxt st) req (step_params sa)), (rid, 1, [(p, ra)])]"
proof -
  let ?pa = "bind_params (exec_cxt st) req (step_params sa)"
  let ?c1 = "cxt_add (exec_cxt st) x ra"
  let ?st1 = "store_result (st\<lparr>exec_invoked := exec_invoked st @ [(rid, 0, ?pa)]\<rparr>) x ra"
  let ?stB = "\<lparr>exec_cxt = ?c1, exec_log = exec_log st,
               exec_invoked = exec_invoked st @ [(rid, 0, ?pa), (rid, 1, [(p, ra)])]\<rparr>"
  have stepA: "run_step req rid 0 sa st = (Continuing, ?st1)"
    by (simp add: run_step_signal [OF opA retA] outA)
  have c1: "exec_cxt ?st1 = ?c1"
    by (simp add: store_result_def)
  have has: "cxt_has (exec_cxt ?st1) x = (ra, True)"
    by (simp add: store_result_def cxt_has_def cxt_add_def update_conv')
  have params: "bind_params (exec_cxt ?st1) req (step_params sb) = [(p, ra)]"
    using resolve_from_context [OF has, of req p dflt] by (simp add: bind_params_def bindB)
  have entered: "?st1\<lparr>exec_invoked := exec_invoked ?st1 @ [(rid, 1, [(p, ra)])]\<rparr> = ?stB"
    by (simp add: store_result_def)
  obtain rB sigB where retB: "B ?c1 [(p, ra)] = (rB, sigB)"
    by (cases "B ?c1 [(p, ra)]")
  have retB': "B (exec_cxt ?st1) (bind_params (exec_cxt ?st1) req (step_params sb)) = (rB, sigB)"
    using retB by (simp only: params) (simp only: c1)
  have stepB: "run_step req rid 1 sb ?st1 = on_signal ?stB (step_output sb) rB sigB"
    using run_step_signal [OF opB retB', of rid 1] by (simp only: params entered)
  have two: "run_steps req rid 0 [sa, sb] st = on_signal ?stB (step_output sb) rB sigB"
    using stepA stepB by (cases sigB) simp_all
  have first: "run_steps req rid 0 (route_steps entry) st
      = on_signal ?stB (step_output sb) (fst (B ?c1 [(p, ra)])) (snd (B ?c1 [(p, ra)]))"
    using two by (simp add: steps retB)
  have second: "B ?c1 [(p, ra)] = (rb, NoSignal) \<longrightarrow>
      run_route hops reg req rid st
        = (HaltedOk,
           \<lparr>exec_cxt = cxt_add ?c1 (step_output sb) rb, exec_log = exec_log st,
            exec_invoked = exec_invoked st @ [(rid, 0, ?pa), (rid, 1, [(p, ra)])]\<rparr>)"
  proof
    assume "B ?c1 [(p, ra)] = (rb, NoSignal)"
    with first have "run_steps req rid 0 (route_steps entry) st
        = (Continuing, store_result ?stB (step_output sb) rb)"
      by simp
    then have "run_route hops reg req rid st = (HaltedOk, store_result ?stB (step_output sb) rb)"
      by (rule run_route_completed [OF entry])
    then show "run_route hops reg req rid st
        = (HaltedOk,
           \<lparr>exec_cxt = cxt_add ?c1 (step_output sb) rb, exec_log = exec_log st,
            exec_invoked = exec_invoked st @ [(rid, 0, ?pa), (rid, 1, [(p, ra)])]\<rparr>)"
      by (simp add: store_result_def)
  qed
  obtain r st3 where run: "run_steps req rid 0 (route_steps entry) st = (r, st3)"
    by (cases "run_steps req rid 0 (route_steps entry) st")
  have "exec_invoked st3 = exec_invoked ?stB"
    using run first on_signal_invoked [of ?stB "step_output sb" rB sigB] retB
    by (metis fst_conv snd_conv)
  moreover obtain ext' where
    "exec_invoked (snd (run_route hops reg req rid st)) = exec_invoked st3 @ ext'"
    using run_route_after_steps [OF entry run] by blast
  ultimately have third:
    "take (length (exec_invoked st) + 2) (exec_invoked (snd (run_route hops reg req rid st)))
       = exec_invoked st @ [(rid, 0, ?pa), (rid, 1, [(p, ra)])]"
    by simp
  from first second third show ?thesis by blast
qed

theorem second_step_receives_first_result_witness:
  "run_route 8 (route_of [step_A, step_B]) empty_request ''GET /'' (start base_context)
     = (HaltedOk,
        \<lparr>exec_cxt = \<lparr>cxt_values = [(''x'', VString ''Route GET / executed''),
                                    (''y'', VString ''Route GET / executed'')],
                      cxt_loggers = [''foo'', ''bar'']\<rparr>,
         exec_log = [],
         exec_invoked = [(''GET /'', 0, []),
                         (''GET /'', 1, [(''content'', VString ''Route GET / executed'')])]\<rparr>)
   \<and> take 2 (exec_invoked (snd (run_route 8 (route_of [step_A, step_B]) empty_request ''GET /''
                (start base_context))))
     = [(''GET /'', 0, []), (''GET /'', 1, [(''content'', VString ''Route GET / executed'')])]"
proof -
  have entry: "map_of (route_of [step_A, step_B]) ''GET /''
      = Some \<lparr>route_description = ''The Homepage'', route_steps = [step_A, step_B]\<rparr>"
    by (simp add: route_of_def register_def)
  have steps: "route_steps \<lparr>route_description = ''The Homepage'', route_steps = [step_A, step_B]\<rparr>
      = [step_A, step_B]"
    by simp
  have opA: "step_operation step_A = Some (returning (VString ''Route GET / executed'') NoSignal)"
    by (simp add: step_A_def)
  have outA: "step_output step_A = ''x''"
    by (simp add: step_A_def)
  have opB: "step_operation step_B = Some (echo ''content'')"
    by (simp add: step_B_def)
  have bindB: "step_params step_B
      = [\<lparr>param_name = ''content'', param_sources = [(FromContext, ''x'')], param_default = None\<rparr>]"
    by (simp add: step_B_def)
  have retA: "returning (VString ''Route GET / executed'') NoSignal (exec_cxt (start base_context))
      (bind_params (exec_cxt (start base_context)) empty_request (step_params step_A))
      = (VString ''Route GET / executed'', NoSignal)"
    by (simp add: returning_def)
  have retB: "echo ''content''
      (cxt_add (exec_cxt (start base_context)) ''x'' (VString ''Route GET / executed''))
      [(''content'', VString ''Route GET / executed'')]
      = (VString ''Route GET / executed'', NoSignal)"
    by (simp add: echo_def)
  show ?thesis
    using retB
      second_step_receives_first_result [OF entry steps opA outA opB bindB retA,
        of "VString ''Route GET / executed''" 8]
    by (simp add: start_def step_A_def step_B_def bind_params_def numeral_2_eq_2
        base_context_def cxt_add_logger_def cxt_add_def)
qed



text \<open>
  Claim C8. Let an execution, started on any route, stand after any number of reroutes
  (none included) at a route in which it reaches a step that returns a FatalError
  signal with an error \<open>e\<close>. Then the whole execution ends, for its caller, in
  Halted-Error with that same \<open>e\<close>, and the final state is the state in which the step
  was entered plus the record of that one invocation: no later step is invoked, nothing
  is stored and nothing is logged.
\<close>

theorem FatalError_halts:
  assumes chain: "reroute_chain hops0 reg req rid0 st0 n = Some (hops, rid, st)"
    and entry: "map_of reg rid = Some entry"
    and steps: "route_steps entry = pre @ s # rest"
    and reach: "run_steps req rid 0 pre st = (Continuing, st1)"
    and op: "step_operation s = Some cmd"
    and ret: "cmd (exec_cxt st1) (bind_params (exec_cxt st1) req (step_params s))
                = (result, FatalError e)"
  shows "run_route hops0 reg req rid0 st0 =
           (HaltedError (Fatal e),
            st1\<lparr>exec_invoked := exec_invoked st1
                   @ [(rid, length pre, bind_params (exec_cxt st1) req (step_params s))]\<rparr>)"
proof -
  have "run_step req rid (length pre) s st1 =
          (HaltedError (Fatal e),
           st1\<lparr>exec_invoked := exec_invoked st1
                  @ [(rid, length pre, bind_params (exec_cxt st1) req (step_params s))]\<rparr>)"
    by (simp add: run_step_signal [OF op ret])
  then have "run_steps req rid 0 (route_steps entry) st =
          (HaltedError (Fatal e),
           st1\<lparr>exec_invoked := exec_invoked st1
                  @ [(rid, length pre, bind_params (exec_cxt st1) req (step_params s))]\<rparr>)"
    by (simp add: steps run_steps_reach [OF reach])
  with entry have "run_route hops reg req rid st =
          (HaltedError (Fatal e),
           st1\<lparr>exec_invoked := exec_invoked st1
                  @ [(rid, length pre, bind_params (exec_cxt st1) req (step_params s))]\<rparr>)"
    by (rule run_route_halted)
  with reroute_chain_run_route [OF chain] show ?thesis by simp
qed

theorem FatalError_halts_witness:
  "run_route 8 (route_of [step_A, step_F, step_B]) empty_request ''GET /'' (start base_context)
     = (HaltedError (Fatal ''db gone''),
        \<lparr>exec_cxt = \<lparr>cxt_values = [(''x'', VString ''Route GET / executed'')],
                      cxt_loggers = [''foo'', ''bar'']\<rparr>,
         exec_log = [],
         exec_invoked = [(''GET /'', 0, []), (''GET /'', 1, [])]\<rparr>)
   \<and> run_route 8 (two_routes [step_A, step_T] [step_F, step_B]) empty_request ''GET /''
        (start base_context)
     = (HaltedError (Fatal ''db gone''),
        \<lparr>exec_cxt = \<lparr>cxt_values = [(''x'', VString ''Route GET / executed'')],
                      cxt_loggers = [''foo'', ''bar'']\<rparr>,
         exec_log = [],
         exec_invoked = [(''GET /'', 0, []), (''GET /'', 1, []), (''@error'', 0, [])]\<rparr>)"
proof -
  let ?st1 = "\<lparr>exec_cxt = \<lparr>cxt_values = [(''x'', VString ''Route GET / executed'')],
                              cxt_loggers = [''foo'', ''bar'']\<rparr>,
               exec_log = [], exec_invoked = [(''GET /'', 0, [])]\<rparr>"
  let ?st2 = "\<lparr>exec_cxt = \<lparr>cxt_values = [(''x'', VString ''Route GET / executed'')],
                              cxt_loggers = [''foo'', ''bar'']\<rparr>,
               exec_log = [], exec_invoked = [(''GET /'', 0, []), (''GET /'', 1, [])]\<rparr>"
  have here: "reroute_chain 8 (route_of [step_A, step_F, step_B]) empty_request ''GET /''
      (start base_context) 0 = Some (8, ''GET /'', start base_context)"
    by simp
  have entry: "map_of (route_of [step_A, step_F, step_B]) ''GET /''
      = Some \<lparr>route_description = ''The Homepage'', route_steps = [step_A, step_F, step_B]\<rparr>"
    by (simp add: route_of_def register_def)
  have steps: "route_steps \<lparr>route_description = ''The Homepage'', route_steps = [step_A, step_F, step_B]\<rparr>
      = [step_A] @ step_F # [step_B]"
    by simp
  have reach: "run_steps empty_request ''GET /'' 0 [step_A] (start base_context) = (Continuing, ?st1)"
    by (simp add: fixture_defs executor_defs)
  have op: "step_operation step_F = Some (returning VNil (FatalError ''db gone''))"
    by (simp add: step_F_def)
  have ret: "returning VNil (FatalError ''db gone'') (exec_cxt ?st1)
      (bind_params (exec_cxt ?st1) empty_request (step_params step_F))
      = (VNil, FatalError ''db gone'')"
    by (simp add: returning_def)
  have chain: "reroute_chain 8 (two_routes [step_A, step_T] [step_F, step_B]) empty_request ''GET /''
      (start base_context) 1 = Some (7, ''@error'', ?st2)"
    by (simp add: chain_defs fixture_defs executor_defs)
  have entry': "map_of (two_routes [step_A, step_T] [step_F, step_B]) ''@error''
      = Some \<lparr>route_description = ''The error page'', route_steps = [step_F, step_B]\<rparr>"
    by (simp add: two_routes_def route_of_def register_def)
  have steps': "route_steps \<lparr>route_description = ''The error page'', route_steps = [step_F, step_B]\<rparr>
      = [] @ step_F # [step_B]"
    by simp
  have reach': "run_steps empty_request ''@error'' 0 [] ?st2 = (Continuing, ?st2)"
    by simp
  have ret': "returning VNil (FatalError ''db gone'') (exec_cxt ?st2)
      (bind_params (exec_cxt ?st2) empty_request (step_params step_F))
      = (VNil, FatalError ''db gone'')"
    by (simp add: returning_def)
  show ?thesis
    using FatalError_halts [OF here entry steps reach op ret]
      FatalError_halts [OF chain entry' steps' reach' op ret']
    by (simp add: step_F_def bind_params_def)
qed

end
